theory Spec2Isabelle
  imports Main
begin

section \<open>Data model of the user entity\<close>

text \<open>
  The entity class \<^verbatim>\<open>User\<close> and the interface \<^verbatim>\<open>OAuthProvider\<close>. An optional
  property (\<^verbatim>\<open>avatar?: string\<close>) or a nullable column is an \<open>option\<close>; a \<^verbatim>\<open>Date\<close> is its
  number of milliseconds since the epoch. The columns no function below reads
  (verification and reset codes, rate-limit and audit timestamps) are left out.
\<close>

datatype UserRole = USER | ADMIN

fun UserRole_value :: "UserRole \<Rightarrow> string" where
  "UserRole_value USER = ''user''"
| "UserRole_value ADMIN = ''admin''"

record OAuthProvider =
  provider :: string
  providerId :: string
  accessToken :: string
  refreshToken :: "string option"
  tokenExpiresAt :: int

record User =
  userId :: string
  email :: string
  password :: "string option"
  name :: string
  role :: UserRole
  avatar :: "string option"
  isEmailVerified :: "bool option"
  oauthProviders :: "OAuthProvider list option"

text \<open>
  JavaScript truthiness of a value of type \<^verbatim>\<open>string | undefined\<close>: \<^verbatim>\<open>undefined\<close> and the
  empty string are falsy, every other string is truthy.
\<close>

definition truthy :: "string option \<Rightarrow> bool" where
  "truthy s = (case s of None \<Rightarrow> False | Some v \<Rightarrow> v \<noteq> [])"


section \<open>Credential store: the pre-persist hook and the comparison\<close>

text \<open>
  The regular expression \<^verbatim>\<open>/^\$2[aby]\$/\<close> of \<^verbatim>\<open>hashPassword\<close>: the string begins with
  a dollar sign, the digit 2, one of the letters a, b, y, and a dollar sign.
\<close>

fun bcrypt_prefix :: "string \<Rightarrow> bool" where
  "bcrypt_prefix (c1 # c2 # c3 # c4 # rest) =
     (c1 = CHR ''$'' \<and> c2 = CHR ''2'' \<and>
      (c3 = CHR ''a'' \<or> c3 = CHR ''b'' \<or> c3 = CHR ''y'') \<and> c4 = CHR ''$'')"
| "bcrypt_prefix s = False"

text \<open>
  The library \<^verbatim>\<open>bcrypt\<close> is not part of the repository. Its two entry points are
  parameters of the model: \<open>bcrypt_hash data rounds\<close> is \<^verbatim>\<open>bcrypt.hash\<close> with the salt it
  draws for this call (a rejected promise is \<open>Inl\<close>), and \<open>bcrypt_compare data encrypted\<close>
  is \<^verbatim>\<open>bcrypt.compare\<close>.
\<close>

datatype bcrypt_error = BcryptRejected

type_synonym bcrypt_hash_fn = "string \<Rightarrow> nat \<Rightarrow> bcrypt_error + string"
type_synonym bcrypt_compare_fn = "string \<Rightarrow> string \<Rightarrow> bool"

text \<open>
  \<^verbatim>\<open>hashPassword\<close>, run before every insert and update of the entity: a password
  that is set, not empty and does not look hashed is replaced by its hash of cost 12;
  anything else is left as it is. A failure of the library propagates.
\<close>

definition hashPassword :: "bcrypt_hash_fn \<Rightarrow> User \<Rightarrow> bcrypt_error + User" where
  "hashPassword bcrypt_hash this =
     (case password this of
        None \<Rightarrow> Inr this
      | Some p \<Rightarrow>
          if p \<noteq> [] \<and> \<not> bcrypt_prefix p
          then (case bcrypt_hash p 12 of
                  Inl e \<Rightarrow> Inl e
                | Inr h \<Rightarrow> Inr (this\<lparr>password := Some h\<rparr>))
          else Inr this)"

text \<open>
  \<^verbatim>\<open>comparePassword\<close>: false when no password is stored (absent or empty), the
  library's comparison of the candidate with the stored value otherwise.
\<close>

definition comparePassword :: "bcrypt_compare_fn \<Rightarrow> User \<Rightarrow> string \<Rightarrow> bool" where
  "comparePassword bcrypt_compare this candidatePassword =
     (case password this of
        None \<Rightarrow> False
      | Some p \<Rightarrow> if p = [] then False else bcrypt_compare candidatePassword p)"


section \<open>Errors, and the user repository\<close>

text \<open>
  Modelled from the spec: the class \<^verbatim>\<open>ApiError\<close> (utils/index.js) and the enumeration
  \<^verbatim>\<open>ErrorCode\<close> (types/api.js) are not among the sources. An error value is its kind, as
  the specification lists them: \<^verbatim>\<open>ApiError.unauthorized()\<close> is \<open>Unauthorized\<close>,
  \<^verbatim>\<open>ApiError.notFound(..)\<close> is \<open>NotFound\<close>, and \<^verbatim>\<open>ApiError.create(status, message, code)\<close>
  is the kind of its \<^verbatim>\<open>code\<close>: \<open>AuthTokenInvalid\<close> for \<^verbatim>\<open>ErrorCode.AUTH_TOKEN_INVALID\<close>,
  \<open>DataInvalid\<close> for \<^verbatim>\<open>ErrorCode.DATA_INVALID\<close>.
\<close>

datatype ApiError = Unauthorized | AuthTokenInvalid | NotFound | DataInvalid

text \<open>
  The repository \<^verbatim>\<open>AppDataSource.getRepository(User)\<close> is the object-relational mapper's,
  not the repository's own code. It is modelled as the list of the stored users together
  with the log of the operations performed on it, so that a lookup or a write that did
  or did not happen is visible in the state. \<^verbatim>\<open>findOne\<close> returns the first row that
  matches. \<^verbatim>\<open>save\<close> inserts an entity that has no identifier yet (the empty string
  stands for the unset property) under the identifier the database generates,
  \<open>newId\<close>, and otherwise replaces the row of that identifier, or inserts when there is
  none; it returns the saved entity.

  The mapper maintains the creation and update timestamps on a write and only then;
  they are not columns of the model. It also runs \<open>hashPassword\<close> before a write; the
  entities saved below are loaded without the password column (\<^verbatim>\<open>select: false\<close>) or
  created without a password, on which the hook changes nothing, and the stored
  password of a row is carried through as it is.
\<close>

datatype db_op = FindOneByEmail string | FindOneByUserId string | Save User

record Repo =
  rows :: "User list"
  oplog :: "db_op list"

definition findOneByEmail :: "string \<Rightarrow> Repo \<Rightarrow> User option \<times> Repo" where
  "findOneByEmail e repo =
     (List.find (\<lambda>u. email u = e) (rows repo),
      repo\<lparr>oplog := oplog repo @ [FindOneByEmail e]\<rparr>)"

definition findOneByUserId :: "string \<Rightarrow> Repo \<Rightarrow> User option \<times> Repo" where
  "findOneByUserId i repo =
     (List.find (\<lambda>u. userId u = i) (rows repo),
      repo\<lparr>oplog := oplog repo @ [FindOneByUserId i]\<rparr>)"

definition save :: "string \<Rightarrow> User \<Rightarrow> Repo \<Rightarrow> User \<times> Repo" where
  "save newId entity repo =
     (let saved = (if userId entity = [] then entity\<lparr>userId := newId\<rparr> else entity);
          rows' = (if List.find (\<lambda>u. userId u = userId saved) (rows repo) = None
                   then rows repo @ [saved]
                   else map (\<lambda>u. if userId u = userId saved then saved else u) (rows repo))
      in (saved, \<lparr>rows = rows', oplog = oplog repo @ [Save saved]\<rparr>))"


section \<open>Token verifier and identity binder (middlewares/auth.ts)\<close>

text \<open>
  \<^verbatim>\<open>String.prototype.split\<close> with a one-character separator, \<^verbatim>\<open>startsWith\<close>, reading
  an array at an index (\<^verbatim>\<open>undefined\<close> out of range), and \<^verbatim>\<open>a || b\<close> on strings.
\<close>

fun js_split :: "char \<Rightarrow> string \<Rightarrow> string list" where
  "js_split sep [] = [[]]"
| "js_split sep (c # cs) =
     (if c = sep then [] # js_split sep cs
      else (case js_split sep cs of [] \<Rightarrow> [[c]] | w # ws \<Rightarrow> (c # w) # ws))"

definition startsWith :: "string \<Rightarrow> string \<Rightarrow> bool" where
  "startsWith s p = (take (length p) s = p)"

definition at_index :: "'a list \<Rightarrow> nat \<Rightarrow> 'a option" where
  "at_index xs i = (if i < length xs then Some (xs ! i) else None)"

definition or_else :: "string option \<Rightarrow> string \<Rightarrow> string" where
  "or_else a b = (case a of None \<Rightarrow> b | Some v \<Rightarrow> if v = [] then b else v)"

text \<open>
  A JavaScript error that is not an \<^verbatim>\<open>ApiError\<close>: \<^verbatim>\<open>new Error(message)\<close>, or the
  \<^verbatim>\<open>SyntaxError\<close> of \<^verbatim>\<open>JSON.parse\<close>.
\<close>

datatype JsError = Error string | SyntaxError

text \<open>
  The library \<^verbatim>\<open>jsonwebtoken\<close> is a parameter: \<open>jwt_verify token secret\<close> is the decoded
  payload, or what the call throws. That is a \<^verbatim>\<open>JsonWebTokenError\<close> (\<^verbatim>\<open>TokenExpiredError\<close>
  and \<^verbatim>\<open>NotBeforeError\<close> are subclasses of it), or an error of another class: the library
  hands on the \<^verbatim>\<open>SyntaxError\<close> that decoding raises for a token whose header says
  \<^verbatim>\<open>typ: JWT\<close> and whose payload is not JSON. Of the payload only the claim \<^verbatim>\<open>userId\<close> is
  read.
\<close>

datatype JsonWebTokenError = JwtMalformed | InvalidSignature | TokenExpiredError | NotBeforeError

datatype jwt_thrown = JwtError JsonWebTokenError | OtherError JsError

record TokenPayload =
  payload_userId :: "string option"

type_synonym jwt_verify_fn = "string \<Rightarrow> string \<Rightarrow> jwt_thrown + TokenPayload"

text \<open>
  What the middleware hands to \<^verbatim>\<open>next\<close> when it fails: an \<^verbatim>\<open>ApiError\<close>, or an error of
  another class passed on as it was thrown.
\<close>

datatype NextError = Api ApiError | Rethrown JsError

text \<open>The object the middleware stores in \<^verbatim>\<open>req.user\<close>.\<close>

record Identity =
  id_userId :: string
  id_role :: UserRole
  id_email :: string
  id_name :: string
  id_isEmailVerified :: "bool option"

text \<open>
  \<^verbatim>\<open>isAuthenticated\<close>. Every \<^verbatim>\<open>throw\<close> inside the \<^verbatim>\<open>try\<close> reaches the \<^verbatim>\<open>catch\<close> (lines 49
  to 54), which turns an instance of \<^verbatim>\<open>JsonWebTokenError\<close> into the error of code
  \<^verbatim>\<open>AUTH_TOKEN_INVALID\<close> and passes every other error on unchanged: the \<^verbatim>\<open>ApiError\<close>s
  thrown in the \<^verbatim>\<open>try\<close>, and whatever else the library throws. The result is what
  \<^verbatim>\<open>next\<close> receives, or the identity bound to the request.
\<close>

definition isAuthenticated ::
  "jwt_verify_fn \<Rightarrow> string option \<Rightarrow> string option \<Rightarrow> Repo \<Rightarrow> (NextError + Identity) \<times> Repo" where
  "isAuthenticated jwt_verify env_JWT_SECRET authHeader repo =
     (case authHeader of
        None \<Rightarrow> (Inl (Api Unauthorized), repo)
      | Some h \<Rightarrow>
          if h = [] \<or> \<not> startsWith h ''Bearer '' then (Inl (Api Unauthorized), repo)
          else (case at_index (js_split CHR '' '' h) 1 of
                  None \<Rightarrow> (Inl (Api Unauthorized), repo)
                | Some token \<Rightarrow>
                    if token = [] then (Inl (Api Unauthorized), repo)
                    else (case jwt_verify token (or_else env_JWT_SECRET ''your_jwt_secret'') of
                            Inl (JwtError e) \<Rightarrow> (Inl (Api AuthTokenInvalid), repo)
                          | Inl (OtherError e) \<Rightarrow> (Inl (Rethrown e), repo)
                          | Inr decoded \<Rightarrow>
                              (case payload_userId decoded of
                                 None \<Rightarrow> (Inl (Api AuthTokenInvalid), repo)
                               | Some uid \<Rightarrow>
                                   if uid = [] then (Inl (Api AuthTokenInvalid), repo)
                                   else (case findOneByUserId uid repo of
                                           (None, repo') \<Rightarrow> (Inl (Api NotFound), repo')
                                         | (Some user, repo') \<Rightarrow>
                                             (Inr \<lparr>id_userId = userId user, id_role = role user,
                                                   id_email = email user, id_name = name user,
                                                   id_isEmailVerified = isEmailVerified user\<rparr>,
                                              repo'))))))"

text \<open>
  The specification's reading of the two failures, for comparison with the code: no
  credential is supplied when the header is absent, is not of the form
  \<^verbatim>\<open>Bearer <token>\<close>, or its token part (the text after \<^verbatim>\<open>Bearer \<close> up to the next
  space) is empty; a supplied token is rejected as invalid when the library throws a
  \<^verbatim>\<open>JsonWebTokenError\<close> for it or its payload has no non-empty \<^verbatim>\<open>userId\<close>.
\<close>

definition bearer_token :: "string \<Rightarrow> string" where
  "bearer_token h = takeWhile (\<lambda>c. c \<noteq> CHR '' '') (drop 7 h)"

definition no_credential :: "string option \<Rightarrow> bool" where
  "no_credential authHeader =
     (case authHeader of
        None \<Rightarrow> True
      | Some h \<Rightarrow> \<not> startsWith h ''Bearer '' \<or> bearer_token h = [])"

definition token_rejected :: "jwt_verify_fn \<Rightarrow> string option \<Rightarrow> string \<Rightarrow> bool" where
  "token_rejected jwt_verify env_JWT_SECRET token =
     (case jwt_verify token (or_else env_JWT_SECRET ''your_jwt_secret'') of
        Inl (JwtError e) \<Rightarrow> True
      | Inl (OtherError e) \<Rightarrow> False
      | Inr decoded \<Rightarrow> \<not> truthy (payload_userId decoded))"



section \<open>OAuth linker: the verify callback of the Google strategy (config/passport.ts)\<close>

text \<open>
  The part of the provider's \<^verbatim>\<open>Profile\<close> the callback reads. \<^verbatim>\<open>emails\<close> and \<^verbatim>\<open>photos\<close>
  are optional arrays of objects with a \<^verbatim>\<open>value\<close>; the model keeps the values.
  \<open>first_value xs\<close> is \<^verbatim>\<open>xs?.[0]?.value\<close>.
\<close>

record Profile =
  profile_id :: string
  displayName :: string
  emails :: "string list option"
  photos :: "string list option"

definition first_value :: "string list option \<Rightarrow> string option" where
  "first_value xs = (case xs of None \<Rightarrow> None | Some [] \<Rightarrow> None | Some (v # vs) \<Rightarrow> Some v)"

text \<open>The value handed to \<^verbatim>\<open>done\<close>: the \<^verbatim>\<open>user\<close> object of the interface \<^verbatim>\<open>GoogleUser\<close>.\<close>

record GoogleUser =
  gu_userId :: string
  gu_email :: string
  gu_name :: string
  gu_avatar :: "string option"
  gu_role :: UserRole
  gu_oauthProviders :: "OAuthProvider list"
  gu_isEmailVerified :: bool

text \<open>
  \<^verbatim>\<open>existingProvider\<close> is a reference into the array \<^verbatim>\<open>user.oauthProviders\<close>: assigning to
  its properties changes the first element of the array for which the predicate of
  \<^verbatim>\<open>find\<close> holds.
\<close>

fun update_first :: "('a \<Rightarrow> bool) \<Rightarrow> ('a \<Rightarrow> 'a) \<Rightarrow> 'a list \<Rightarrow> 'a list" where
  "update_first P f [] = []"
| "update_first P f (x # xs) = (if P x then f x # xs else x # update_first P f xs)"

definition isGoogle :: "OAuthProvider \<Rightarrow> bool" where
  "isGoogle p = (provider p = ''google'')"

text \<open>The link built from the arguments of the callback; it expires an hour from now.\<close>

definition googleLink :: "int \<Rightarrow> string \<Rightarrow> string \<Rightarrow> string option \<Rightarrow> OAuthProvider" where
  "googleLink now googleId accessTok refreshTok =
     \<lparr>provider = ''google'', providerId = googleId, accessToken = accessTok,
      refreshToken = refreshTok, tokenExpiresAt = now + 3600000\<rparr>"

text \<open>
  Lines 59 to 68: the assignments to the existing link. The identifier is overwritten
  when it differs, the token material always.
\<close>

definition refreshLink :: "int \<Rightarrow> string \<Rightarrow> string \<Rightarrow> string option \<Rightarrow> OAuthProvider \<Rightarrow> OAuthProvider" where
  "refreshLink now googleId accessTok refreshTok existingProvider =
     (if providerId existingProvider \<noteq> googleId
      then existingProvider\<lparr>providerId := googleId\<rparr>
      else existingProvider)
     \<lparr>accessToken := accessTok, refreshToken := refreshTok, tokenExpiresAt := now + 3600000\<rparr>"

text \<open>\<^verbatim>\<open>if (avatarUrl && !user.avatar) user.avatar = avatarUrl\<close>, in both branches.\<close>

definition fillAvatar :: "string option \<Rightarrow> User \<Rightarrow> User" where
  "fillAvatar avatarUrl user =
     (if truthy avatarUrl \<and> \<not> truthy (avatar user) then user\<lparr>avatar := avatarUrl\<rparr> else user)"

text \<open>\<^verbatim>\<open>user.oauthProviders || []\<close>: the links of a user, none when the property is unset.\<close>

definition providerLinks :: "User \<Rightarrow> OAuthProvider list" where
  "providerLinks user = (case oauthProviders user of None \<Rightarrow> [] | Some ps \<Rightarrow> ps)"

text \<open>Lines 57 to 71, the user has a Google link; lines 74 to 86, the user has none.\<close>

definition relinkExisting :: "int \<Rightarrow> string \<Rightarrow> string \<Rightarrow> string option \<Rightarrow> string option \<Rightarrow> User \<Rightarrow> User" where
  "relinkExisting now googleId accessTok refreshTok avatarUrl user =
     fillAvatar avatarUrl
       (user\<lparr>oauthProviders :=
          map_option (update_first isGoogle (refreshLink now googleId accessTok refreshTok))
            (oauthProviders user)\<rparr>)"

definition appendLink :: "int \<Rightarrow> string \<Rightarrow> string \<Rightarrow> string option \<Rightarrow> string option \<Rightarrow> User \<Rightarrow> User" where
  "appendLink now googleId accessTok refreshTok avatarUrl user =
     (fillAvatar avatarUrl
        (user\<lparr>oauthProviders :=
           Some (providerLinks user @ [googleLink now googleId accessTok refreshTok])\<rparr>))
     \<lparr>isEmailVerified := Some True\<rparr>"

text \<open>
  Lines 91 to 104, \<^verbatim>\<open>userRepository.create\<close>: the entity has no identifier and no
  password yet. The name is \<^verbatim>\<open>profile.displayName || email.split('@')[0]\<close>.
\<close>

definition newGoogleUser :: "int \<Rightarrow> string \<Rightarrow> string \<Rightarrow> string option \<Rightarrow> string option \<Rightarrow> string \<Rightarrow> string \<Rightarrow> User" where
  "newGoogleUser now googleId accessTok refreshTok avatarUrl dispName mail =
     \<lparr>userId = [], email = mail, password = None,
      name = or_else (Some dispName) (case js_split CHR ''@'' mail of [] \<Rightarrow> [] | w # ws \<Rightarrow> w),
      role = USER, avatar = avatarUrl, isEmailVerified = Some True,
      oauthProviders = Some [googleLink now googleId accessTok refreshTok]\<rparr>"

text \<open>
  Lines 51 to 106, from the lookup by email to the end of the conditional: the value of
  the variable \<^verbatim>\<open>user\<close> at line 108 and the repository then. In the two branches of an
  existing user that is the entity changed in memory, which \<^verbatim>\<open>save\<close> has written; in the
  branch of a new user it is what \<^verbatim>\<open>save\<close> returned. \<open>now\<close> is \<^verbatim>\<open>Date.now()\<close> and \<open>newId\<close>
  the identifier the database gives a row it inserts.
\<close>

definition linkOrCreate ::
  "int \<Rightarrow> string \<Rightarrow> string \<Rightarrow> string \<Rightarrow> string option \<Rightarrow> string option \<Rightarrow> string \<Rightarrow> string \<Rightarrow> Repo
     \<Rightarrow> User \<times> Repo" where
  "linkOrCreate now newId googleId accessTok refreshTok avatarUrl dispName mail repo =
     (case findOneByEmail mail repo of
        (Some user, repo1) \<Rightarrow>
          (case List.find isGoogle (providerLinks user) of
             Some existingProvider \<Rightarrow>
               (let user' = relinkExisting now googleId accessTok refreshTok avatarUrl user;
                    (saved, repo2) = save newId user' repo1
                in (user', repo2))
           | None \<Rightarrow>
               (let user' = appendLink now googleId accessTok refreshTok avatarUrl user;
                    (saved, repo2) = save newId user' repo1
                in (user', repo2)))
      | (None, repo1) \<Rightarrow>
          save newId
            (newGoogleUser now googleId accessTok refreshTok avatarUrl dispName mail) repo1)"

text \<open>Lines 109 to 120, the projection handed to the controller.\<close>

definition userData :: "User \<Rightarrow> GoogleUser" where
  "userData user =
     \<lparr>gu_userId = userId user, gu_email = email user, gu_name = name user,
      gu_avatar = avatar user, gu_role = role user,
      gu_oauthProviders = providerLinks user,
      gu_isEmailVerified = (case isEmailVerified user of None \<Rightarrow> False | Some b \<Rightarrow> b)\<rparr>"

text \<open>
  The callback: the two checks of the profile, the resolution of the user, and the
  projection. The result is what \<^verbatim>\<open>done\<close> receives and the repository afterwards.
\<close>

definition googleVerify ::
  "int \<Rightarrow> string \<Rightarrow> string \<Rightarrow> string option \<Rightarrow> Profile \<Rightarrow> Repo \<Rightarrow> (JsError + GoogleUser) \<times> Repo" where
  "googleVerify now newId accessTok refreshTok profile repo =
     (if profile_id profile = [] then (Inl (Error ''Google profile ID not found''), repo)
      else if \<not> truthy (first_value (emails profile))
      then (Inl (Error ''Google profile email not found''), repo)
      else
        let mail = or_else (first_value (emails profile)) [];
            googleId = profile_id profile;
            avatarUrl = first_value (photos profile);
            (user, repo') = linkOrCreate now newId googleId accessTok refreshTok avatarUrl
                              (displayName profile) mail repo
        in (Inr (userData user), repo'))"


text \<open>
  The specification's two notions, for the statements about the linker: a user has at
  most one link per provider; and renewing the token material of a link changes its
  access token, refresh token and expiry and nothing else.
\<close>

definition oneLinkPerProvider :: "User \<Rightarrow> bool" where
  "oneLinkPerProvider user = distinct (map provider (providerLinks user))"

definition renewTokens :: "int \<Rightarrow> string \<Rightarrow> string option \<Rightarrow> OAuthProvider \<Rightarrow> OAuthProvider" where
  "renewTokens now accessTok refreshTok p =
     p\<lparr>accessToken := accessTok, refreshToken := refreshTok, tokenExpiresAt := now + 3600000\<rparr>"

text \<open>
  A third property of a stored user: a user who has a Google link has a verified email.
  A user without Google link has it whatever the flag says, so a row written by a
  registration with a password has it. The linker and the role guard keep it for every
  row, as shown below.
\<close>

definition verifiedIfLinked :: "User \<Rightarrow> bool" where
  "verifiedIfLinked user =
     (List.find isGoogle (providerLinks user) = None \<or> isEmailVerified user = Some True)"


section \<open>Role guard (controllers/user.ts)\<close>

text \<open>
  \<^verbatim>\<open>req.user\<close> as the controller reads it, and the body of the two success responses
  (both of status 200). The two messages are kept as constructors: \<open>RoleUnchanged\<close> is
  the message saying that the user's role was not changed, \<open>RoleUpdated\<close> the one saying
  that it was updated.
\<close>

record AuthenticatedUser =
  au_userId :: string
  au_role :: string
  au_email :: string

datatype Message = RoleUnchanged | RoleUpdated

record ApiResponse =
  res_status :: nat
  res_message :: Message
  res_userId :: string
  res_role :: UserRole

text \<open>
  \<^verbatim>\<open>Object.values(UserRole).includes(role)\<close> and the cast \<^verbatim>\<open>role as UserRole\<close>: the role
  whose string value is the given string, if there is one.
\<close>

definition parseUserRole :: "string \<Rightarrow> UserRole option" where
  "parseUserRole r = List.find (\<lambda>v. UserRole_value v = r) [USER, ADMIN]"

text \<open>
  \<^verbatim>\<open>updateUserRole\<close>: \<open>authenticatedUser\<close> is \<^verbatim>\<open>req.user\<close>, \<open>targetUserId\<close> is
  \<^verbatim>\<open>req.params.id\<close> and \<open>roleField\<close> is \<^verbatim>\<open>req.body.role\<close>.
\<close>

definition updateUserRole ::
  "string \<Rightarrow> AuthenticatedUser option \<Rightarrow> string \<Rightarrow> string option \<Rightarrow> Repo \<Rightarrow> (ApiError + ApiResponse) \<times> Repo" where
  "updateUserRole newId authenticatedUser targetUserId roleField repo =
     (case authenticatedUser of
        None \<Rightarrow> (Inl Unauthorized, repo)
      | Some actor \<Rightarrow>
          (case roleField of
             None \<Rightarrow> (Inl DataInvalid, repo)
           | Some r \<Rightarrow>
               if r = [] then (Inl DataInvalid, repo)
               else (case parseUserRole r of
                       None \<Rightarrow> (Inl DataInvalid, repo)
                     | Some newRole \<Rightarrow>
                         if au_userId actor = targetUserId \<and> r = UserRole_value USER
                         then (Inl DataInvalid, repo)
                         else (case findOneByUserId targetUserId repo of
                                 (None, repo1) \<Rightarrow> (Inl NotFound, repo1)
                               | (Some user, repo1) \<Rightarrow>
                                   if UserRole_value (role user) = r
                                   then (Inr \<lparr>res_status = 200, res_message = RoleUnchanged,
                                              res_userId = userId user, res_role = role user\<rparr>,
                                         repo1)
                                   else (let user' = user\<lparr>role := newRole\<rparr>;
                                             (saved, repo2) = save newId user' repo1
                                         in (Inr \<lparr>res_status = 200, res_message = RoleUpdated,
                                                  res_userId = userId user', res_role = role user'\<rparr>,
                                             repo2))))))"


section \<open>Stand-ins for the libraries and sample inputs\<close>

text \<open>
  A stand-in for the library, used where a statement is evaluated at a concrete input:
  the hash is the plaintext behind a header of the bcrypt shape, and the comparison
  accepts exactly the hash of the candidate. It has the two properties of bcrypt the
  statements below rely on (the output has the recognised prefix, and the hash of a
  password compares equal to that password) and none of its secrecy.
\<close>

definition stub_hash :: bcrypt_hash_fn where
  "stub_hash p rounds = Inr (''$2b$12$'' @ p)"

definition stub_compare :: bcrypt_compare_fn where
  "stub_compare candidate encrypted = (encrypted = ''$2b$12$'' @ candidate)"

definition sampleUser :: User where
  "sampleUser =
     \<lparr>userId = ''u1'', email = ''a@x.com'', password = None, name = ''a'', role = USER,
      avatar = None, isEmailVerified = Some False, oauthProviders = Some []\<rparr>"

text \<open>
  A stand-in for \<^verbatim>\<open>jwt.verify\<close>: the token \<^verbatim>\<open>good\<close> carries the identifier \<^verbatim>\<open>u1\<close>, the
  token \<^verbatim>\<open>anon\<close> a payload without identifier, and the token \<^verbatim>\<open>old\<close> has expired. The
  fourth token has three well-formed parts: the header \<^verbatim>\<open>{"alg":"HS256","typ":"JWT"}\<close>,
  the payload \<^verbatim>\<open>notjson\<close> and a signature, each in base64url; for it the library throws
  the \<^verbatim>\<open>SyntaxError\<close> of \<^verbatim>\<open>JSON.parse\<close>. Every other token is malformed for the library.
\<close>

definition stub_jwt :: jwt_verify_fn where
  "stub_jwt token secret =
     (if token = ''good'' then Inr \<lparr>payload_userId = Some ''u1''\<rparr>
      else if token = ''anon'' then Inr \<lparr>payload_userId = None\<rparr>
      else if token = ''old'' then Inl (JwtError TokenExpiredError)
      else if token = ''eyJhbGciOiJIUzI1NiIsInR5cCI6IkpXVCJ9.bm90anNvbg.c2ln''
      then Inl (OtherError SyntaxError)
      else Inl (JwtError JwtMalformed))"

definition sampleRepo :: Repo where
  "sampleRepo = \<lparr>rows = [sampleUser], oplog = []\<rparr>"


definition sampleActor :: AuthenticatedUser where
  "sampleActor = \<lparr>au_userId = ''u1'', au_role = ''user'', au_email = ''a@x.com''\<rparr>"

definition adminActor :: AuthenticatedUser where
  "adminActor = \<lparr>au_userId = ''u9'', au_role = ''admin'', au_email = ''root@x.com''\<rparr>"


text \<open>
  A profile of the subject \<^verbatim>\<open>g123\<close> with the email of the sample user; the sample user
  with a Google link of that subject, once with the flag of the verified email unset and
  once with it set; and the sample user with a link of another provider.
\<close>

definition sampleProfile :: Profile where
  "sampleProfile =
     \<lparr>profile_id = ''g123'', displayName = ''Alice'', emails = Some [''a@x.com''],
      photos = Some [''http://img/a.png'']\<rparr>"

definition linkedUser :: User where
  "linkedUser =
     sampleUser\<lparr>oauthProviders :=
       Some [\<lparr>provider = ''google'', providerId = ''g123'', accessToken = ''t0'',
              refreshToken = None, tokenExpiresAt = 0\<rparr>]\<rparr>"

definition linkedRepo :: Repo where
  "linkedRepo = \<lparr>rows = [linkedUser], oplog = []\<rparr>"



definition githubUser :: User where
  "githubUser =
     sampleUser\<lparr>oauthProviders :=
       Some [\<lparr>provider = ''github'', providerId = ''h77'', accessToken = ''gho_secret'',
              refreshToken = Some ''ghr_secret'', tokenExpiresAt = 0\<rparr>]\<rparr>"

definition githubRepo :: Repo where
  "githubRepo = \<lparr>rows = [githubUser], oplog = []\<rparr>"


section \<open>Properties of the credential store\<close>

lemma bcrypt_prefix_nonempty: "bcrypt_prefix s \<Longrightarrow> s \<noteq> []"
  by (cases s) simp_all

lemma hashPassword_verbatim:
  "bcrypt_prefix v \<Longrightarrow> password u = Some v \<Longrightarrow> hashPassword bh u = Inr u"
  by (simp add: hashPassword_def)

lemma hashPassword_empty: "password u = Some [] \<Longrightarrow> hashPassword bh u = Inr u"
  by (simp add: hashPassword_def)

lemma hashPassword_hashes:
  "p \<noteq> [] \<Longrightarrow> \<not> bcrypt_prefix p \<Longrightarrow> password u = Some p \<Longrightarrow> bh p 12 = Inr h \<Longrightarrow>
   hashPassword bh u = Inr (u\<lparr>password := Some h\<rparr>)"
  by (simp add: hashPassword_def)

lemma hashPassword_result:
  assumes "hashPassword bh u = Inr u1" and "password u = Some p"
  shows "u1 = u \<or> (\<exists>h. bh p 12 = Inr h \<and> u1 = u\<lparr>password := Some h\<rparr>)"
  using assms by (auto simp: hashPassword_def split: if_splits sum.splits)

text \<open>
  Claim C1, as stated, fails on the code: a plaintext that itself begins with one of
  the recognised prefixes is stored as it is, so the stored value equals the plaintext;
  and the empty password is stored as it is and then never verifies.
\<close>

theorem hashPassword_stores_prefixed_plaintext:
  "hashPassword stub_hash (sampleUser\<lparr>password := Some ''$2b$hunter2''\<rparr>)
     = Inr (sampleUser\<lparr>password := Some ''$2b$hunter2''\<rparr>)
   \<and> hashPassword stub_hash (sampleUser\<lparr>password := Some []\<rparr>)
     = Inr (sampleUser\<lparr>password := Some []\<rparr>)
   \<and> \<not> comparePassword stub_compare (sampleUser\<lparr>password := Some []\<rparr>) []"
  by (simp add: hashPassword_def comparePassword_def)

text \<open>
  Claim C1, amended: for every non-empty plaintext \<open>P\<close> that does not begin with one of
  the recognised prefixes, when \<^verbatim>\<open>bcrypt.hash\<close> returns a hash \<open>H\<close> of the bcrypt shape that
  \<^verbatim>\<open>bcrypt.compare\<close> accepts for \<open>P\<close>, the hook stores \<open>H\<close>, verifying the stored user with
  the candidate \<open>P\<close> returns true, and the stored value is not \<open>P\<close>.
\<close>

theorem hashPassword_then_comparePassword:
  assumes nonempty: "P \<noteq> []"
    and plain: "\<not> bcrypt_prefix P"
    and hashed: "bcrypt_hash P 12 = Inr H"
    and shape: "bcrypt_prefix H"
    and accepted: "bcrypt_compare P H"
  shows "hashPassword bcrypt_hash (u\<lparr>password := Some P\<rparr>) = Inr (u\<lparr>password := Some H\<rparr>)
         \<and> comparePassword bcrypt_compare (u\<lparr>password := Some H\<rparr>) P
         \<and> password (u\<lparr>password := Some H\<rparr>) \<noteq> Some P"
proof -
  have stored: "hashPassword bcrypt_hash (u\<lparr>password := Some P\<rparr>) = Inr (u\<lparr>password := Some H\<rparr>)"
    using nonempty plain hashed by (simp add: hashPassword_def)
  have "H \<noteq> []"
    using shape by (rule bcrypt_prefix_nonempty)
  then have verified: "comparePassword bcrypt_compare (u\<lparr>password := Some H\<rparr>) P"
    using accepted by (simp add: comparePassword_def)
  have "H \<noteq> P"
    using plain shape by auto
  with stored verified show ?thesis by simp
qed

text \<open>Witness of C1, amended: the password \<^verbatim>\<open>hunter2\<close> with the stand-in library.\<close>

theorem hashPassword_then_comparePassword_witness:
  "''hunter2'' \<noteq> [] \<and> \<not> bcrypt_prefix ''hunter2''
   \<and> stub_hash ''hunter2'' 12 = Inr ''$2b$12$hunter2''
   \<and> hashPassword stub_hash (sampleUser\<lparr>password := Some ''hunter2''\<rparr>)
       = Inr (sampleUser\<lparr>password := Some ''$2b$12$hunter2''\<rparr>)
   \<and> comparePassword stub_compare (sampleUser\<lparr>password := Some ''$2b$12$hunter2''\<rparr>) ''hunter2''
   \<and> password (sampleUser\<lparr>password := Some ''$2b$12$hunter2''\<rparr>) \<noteq> Some ''hunter2''"
  using hashPassword_then_comparePassword
    [of "''hunter2''" stub_hash "''$2b$12$hunter2''" stub_compare sampleUser]
  by (simp add: stub_hash_def stub_compare_def)

text \<open>
  Claim C2: a value \<open>V\<close> that already has a recognised prefix is stored unchanged by the
  hook; and for any plaintext \<open>P\<close>, running the hook on the result of the hook changes
  nothing more, whichever salts the library draws, given that what \<^verbatim>\<open>bcrypt.hash\<close>
  returns has the bcrypt shape.
\<close>

theorem hashPassword_idempotent:
  "(bcrypt_prefix V \<longrightarrow>
      hashPassword bcrypt_hash (u\<lparr>password := Some V\<rparr>) = Inr (u\<lparr>password := Some V\<rparr>))
   \<and> ((\<forall>h. bcrypt_hash P 12 = Inr h \<longrightarrow> bcrypt_prefix h) \<longrightarrow>
        hashPassword bcrypt_hash (u\<lparr>password := Some P\<rparr>) = Inr u1 \<longrightarrow>
        hashPassword bcrypt_hash' u1 = Inr u1)"
proof (intro conjI impI)
  assume "bcrypt_prefix V"
  then show "hashPassword bcrypt_hash (u\<lparr>password := Some V\<rparr>) = Inr (u\<lparr>password := Some V\<rparr>)"
    by (simp add: hashPassword_verbatim)
next
  assume shape: "\<forall>h. bcrypt_hash P 12 = Inr h \<longrightarrow> bcrypt_prefix h"
    and once: "hashPassword bcrypt_hash (u\<lparr>password := Some P\<rparr>) = Inr u1"
  let ?u = "u\<lparr>password := Some P\<rparr>"
  from hashPassword_result [OF once, of P]
  consider (kept) "u1 = ?u" | (hashed) h where "bcrypt_hash P 12 = Inr h" "u1 = ?u\<lparr>password := Some h\<rparr>"
    by auto
  then show "hashPassword bcrypt_hash' u1 = Inr u1"
  proof cases
    case kept
    have "P = [] \<or> bcrypt_prefix P"
    proof (rule ccontr)
      assume "\<not> (P = [] \<or> bcrypt_prefix P)"
      then have "P \<noteq> []" "\<not> bcrypt_prefix P" by simp_all
      with once kept obtain h where h: "bcrypt_hash P 12 = Inr h" "?u\<lparr>password := Some h\<rparr> = ?u"
        by (auto simp: hashPassword_def split: sum.splits)
      from h(2) have "password (?u\<lparr>password := Some h\<rparr>) = password ?u" by simp
      then have "h = P" by simp
      with shape h(1) \<open>\<not> bcrypt_prefix P\<close> show False by simp
    qed
    with kept show ?thesis
      by (auto simp: hashPassword_empty hashPassword_verbatim)
  next
    case hashed
    with shape have "bcrypt_prefix h" by simp
    with hashed show ?thesis by (simp add: hashPassword_verbatim)
  qed
qed

text \<open>
  Witness of C2: a stored hash is kept, and hashing \<^verbatim>\<open>hunter2\<close> and running the hook
  again gives the same user as hashing it once.
\<close>

theorem hashPassword_idempotent_witness:
  "bcrypt_prefix ''$2b$12$abc''
   \<and> hashPassword stub_hash (sampleUser\<lparr>password := Some ''$2b$12$abc''\<rparr>)
       = Inr (sampleUser\<lparr>password := Some ''$2b$12$abc''\<rparr>)
   \<and> hashPassword stub_hash (sampleUser\<lparr>password := Some ''hunter2''\<rparr>)
       = Inr (sampleUser\<lparr>password := Some ''$2b$12$hunter2''\<rparr>)
   \<and> hashPassword stub_hash (sampleUser\<lparr>password := Some ''$2b$12$hunter2''\<rparr>)
       = Inr (sampleUser\<lparr>password := Some ''$2b$12$hunter2''\<rparr>)"
  using hashPassword_idempotent
    [of "''$2b$12$abc''" stub_hash sampleUser "''hunter2''"
        "sampleUser\<lparr>password := Some ''$2b$12$hunter2''\<rparr>" stub_hash]
  by (simp add: stub_hash_def hashPassword_def)

text \<open>
  Claim C10: a value \<open>V\<close> that begins with a recognised prefix, a plaintext chosen by the
  user included, is stored by the hook exactly as it came, without a call of the hash
  function (the result is the same for every hash function); and verification then
  hands the stored value to \<^verbatim>\<open>bcrypt.compare\<close> as the hash.
\<close>

theorem hashPassword_prefixed_verbatim:
  assumes "bcrypt_prefix V"
  shows "hashPassword bcrypt_hash (u\<lparr>password := Some V\<rparr>) = Inr (u\<lparr>password := Some V\<rparr>)
         \<and> password (u\<lparr>password := Some V\<rparr>) = Some V
         \<and> comparePassword bcrypt_compare (u\<lparr>password := Some V\<rparr>) candidate
             = bcrypt_compare candidate V"
proof -
  have "V \<noteq> []"
    using assms by (rule bcrypt_prefix_nonempty)
  then have "comparePassword bcrypt_compare (u\<lparr>password := Some V\<rparr>) candidate
               = bcrypt_compare candidate V"
    by (simp add: comparePassword_def)
  moreover have "hashPassword bcrypt_hash (u\<lparr>password := Some V\<rparr>) = Inr (u\<lparr>password := Some V\<rparr>)"
    using assms by (simp add: hashPassword_verbatim)
  ultimately show ?thesis by simp
qed

text \<open>Witness of C10: the plaintext \<^verbatim>\<open>$2a$secret\<close>.\<close>

theorem hashPassword_prefixed_verbatim_witness:
  "bcrypt_prefix ''$2a$secret''
   \<and> hashPassword stub_hash (sampleUser\<lparr>password := Some ''$2a$secret''\<rparr>)
       = Inr (sampleUser\<lparr>password := Some ''$2a$secret''\<rparr>)
   \<and> comparePassword stub_compare (sampleUser\<lparr>password := Some ''$2a$secret''\<rparr>) ''$2a$secret''
       = stub_compare ''$2a$secret'' ''$2a$secret''"
  using hashPassword_prefixed_verbatim [of "''$2a$secret''" stub_hash sampleUser stub_compare "''$2a$secret''"]
  by simp


section \<open>Properties of the token verifier\<close>

lemma js_split_Cons: "\<exists>ws. js_split sep s = takeWhile (\<lambda>c. c \<noteq> sep) s # ws"
  by (induction s) (auto split: list.splits)

lemma js_split_prefix:
  "sep \<notin> set p \<Longrightarrow> js_split sep (p @ sep # rest) = p # js_split sep rest"
  by (induction p) (auto split: list.splits)

lemma startsWith_Bearer:
  assumes "startsWith h ''Bearer ''"
  shows "h = ''Bearer'' @ CHR '' '' # drop 7 h"
proof -
  have seven: "length ''Bearer '' = 7" by simp
  have "take (length ''Bearer '') h = ''Bearer ''"
    using assms unfolding startsWith_def .
  then have "take 7 h = ''Bearer ''"
    unfolding seven .
  then have "h = ''Bearer '' @ drop 7 h"
    by (metis append_take_drop_id)
  then show ?thesis by simp
qed

text \<open>
  The token the code extracts, \<^verbatim>\<open>authHeader.split(' ')[1]\<close>, is the text between the
  prefix \<^verbatim>\<open>Bearer \<close> and the next space.
\<close>

lemma token_of_header:
  assumes "startsWith h ''Bearer ''"
  shows "at_index (js_split CHR '' '' h) 1 = Some (bearer_token h)"
proof -
  obtain ws where ws: "js_split CHR '' '' (drop 7 h) = bearer_token h # ws"
    using js_split_Cons [of "CHR '' ''" "drop 7 h"] by (auto simp: bearer_token_def)
  have "js_split CHR '' '' h = js_split CHR '' '' (''Bearer'' @ CHR '' '' # drop 7 h)"
    using startsWith_Bearer [OF assms] by simp
  also have "\<dots> = ''Bearer'' # js_split CHR '' '' (drop 7 h)"
    by (rule js_split_prefix) simp
  finally show ?thesis using ws by (simp add: at_index_def)
qed

lemma isAuthenticated_supplied:
  assumes "startsWith h ''Bearer ''" and "bearer_token h \<noteq> []"
  shows "isAuthenticated jv env (Some h) repo =
     (case jv (bearer_token h) (or_else env ''your_jwt_secret'') of
        Inl (JwtError e) \<Rightarrow> (Inl (Api AuthTokenInvalid), repo)
      | Inl (OtherError e) \<Rightarrow> (Inl (Rethrown e), repo)
      | Inr decoded \<Rightarrow>
          if \<not> truthy (payload_userId decoded) then (Inl (Api AuthTokenInvalid), repo)
          else (case findOneByUserId (or_else (payload_userId decoded) []) repo of
                  (None, repo') \<Rightarrow> (Inl (Api NotFound), repo')
                | (Some user, repo') \<Rightarrow>
                    (Inr \<lparr>id_userId = userId user, id_role = role user,
                          id_email = email user, id_name = name user,
                          id_isEmailVerified = isEmailVerified user\<rparr>, repo')))"
proof -
  have "h \<noteq> []" using assms(1) by (auto simp: startsWith_def)
  then show ?thesis
    using assms token_of_header [OF assms(1)]
    by (auto simp: isAuthenticated_def truthy_def or_else_def
        split: sum.splits option.splits jwt_thrown.splits)
qed

lemma isAuthenticated_no_credential:
  "no_credential hdr \<Longrightarrow> isAuthenticated jv env hdr repo = (Inl (Api Unauthorized), repo)"
  using token_of_header
  by (auto simp: no_credential_def isAuthenticated_def split: option.splits)

text \<open>
  What does hold of the two failures: the verification fails with \<open>Unauthorized\<close> exactly
  when no credential is supplied, and with \<open>AuthTokenInvalid\<close> exactly when a token is
  supplied and the library throws a \<^verbatim>\<open>JsonWebTokenError\<close> for it or its payload has no
  non-empty \<^verbatim>\<open>userId\<close>. An error of another class that the library throws is passed on
  as it is.
\<close>

lemma isAuthenticated_error_kinds:
  "(fst (isAuthenticated jwt_verify env hdr repo) = Inl (Api Unauthorized) \<longleftrightarrow> no_credential hdr)
   \<and> (fst (isAuthenticated jwt_verify env hdr repo) = Inl (Api AuthTokenInvalid) \<longleftrightarrow>
        (\<exists>h. hdr = Some h \<and> startsWith h ''Bearer '' \<and> bearer_token h \<noteq> []
             \<and> token_rejected jwt_verify env (bearer_token h)))"
proof (cases "no_credential hdr")
  case True
  then have "isAuthenticated jwt_verify env hdr repo = (Inl (Api Unauthorized), repo)"
    by (rule isAuthenticated_no_credential)
  with True show ?thesis by (auto simp: no_credential_def)
next
  case False
  then obtain h where h: "hdr = Some h" "startsWith h ''Bearer ''" "bearer_token h \<noteq> []"
    by (auto simp: no_credential_def split: option.splits)
  show ?thesis
    using False h isAuthenticated_supplied [OF h(2,3), of jwt_verify env repo]
    by (auto simp: token_rejected_def findOneByUserId_def
        split: sum.splits option.splits if_splits jwt_thrown.splits)
qed

lemma isAuthenticated_rethrows:
  assumes "startsWith h ''Bearer ''" and "bearer_token h \<noteq> []"
    and "jwt_verify (bearer_token h) (or_else env ''your_jwt_secret'') = Inl (OtherError e)"
  shows "isAuthenticated jwt_verify env (Some h) repo = (Inl (Rethrown e), repo)"
  using isAuthenticated_supplied [OF assms(1,2), of jwt_verify env repo] assms(3) by simp

text \<open>
  Claim C3 does not hold on the code for every supplied token. The header
  \<^verbatim>\<open>Bearer eyJhbGciOiJIUzI1NiIsInR5cCI6IkpXVCJ9.bm90anNvbg.c2ln\<close> supplies a malformed token
  (its payload is not JSON); the library throws a \<^verbatim>\<open>SyntaxError\<close>, which is not an instance
  of \<^verbatim>\<open>JsonWebTokenError\<close>, and the \<^verbatim>\<open>catch\<close> hands it to \<^verbatim>\<open>next\<close> unchanged: the failure
  is neither \<open>AuthTokenInvalid\<close> nor \<open>Unauthorized\<close>. An expired token and a token
  malformed in the library's own sense do fail with \<open>AuthTokenInvalid\<close>, and an absent
  header with \<open>Unauthorized\<close>.
\<close>

theorem isAuthenticated_rethrows_SyntaxError:
  "fst (isAuthenticated stub_jwt None
          (Some ''Bearer eyJhbGciOiJIUzI1NiIsInR5cCI6IkpXVCJ9.bm90anNvbg.c2ln'') sampleRepo)
     = Inl (Rethrown SyntaxError)
   \<and> fst (isAuthenticated stub_jwt None (Some ''Bearer old'') sampleRepo) = Inl (Api AuthTokenInvalid)
   \<and> fst (isAuthenticated stub_jwt None (Some ''Bearer x.y'') sampleRepo) = Inl (Api AuthTokenInvalid)
   \<and> fst (isAuthenticated stub_jwt None (Some ''Bearer anon'') sampleRepo) = Inl (Api AuthTokenInvalid)
   \<and> fst (isAuthenticated stub_jwt None None sampleRepo) = Inl (Api Unauthorized)"
  by (simp add: isAuthenticated_def startsWith_def at_index_def stub_jwt_def or_else_def)


section \<open>Properties of the role guard\<close>

lemma parseUserRole_value: "parseUserRole (UserRole_value v) = Some v"
  by (cases v) (simp_all add: parseUserRole_def)

lemma UserRole_value_nonempty: "UserRole_value v \<noteq> []"
  by (cases v) simp_all

text \<open>
  Claim C8: whoever the actor is, a request to give the actor's own account the role
  \<^verbatim>\<open>user\<close> is rejected as \<open>DataInvalid\<close>, and the repository is returned as it was: no row
  is changed and no operation is logged, not even the lookup of the target, which may
  or may not exist.
\<close>

theorem updateUserRole_self_demotion_rejected:
  "updateUserRole newId (Some actor) (au_userId actor) (Some (UserRole_value USER)) repo
     = (Inl DataInvalid, repo)"
  by (simp add: updateUserRole_def parseUserRole_def)

text \<open>
  Witness of C8: the actor \<^verbatim>\<open>u1\<close> asking for the role \<^verbatim>\<open>user\<close> on \<^verbatim>\<open>u1\<close>; the repository
  keeps its empty log.
\<close>

theorem updateUserRole_self_demotion_rejected_witness:
  "updateUserRole ''n'' (Some sampleActor) ''u1'' (Some ''user'') sampleRepo
     = (Inl DataInvalid, \<lparr>rows = [sampleUser], oplog = []\<rparr>)"
  using updateUserRole_self_demotion_rejected [of "''n''" sampleActor sampleRepo]
  by (simp add: sampleActor_def sampleRepo_def)

text \<open>
  Claim C9, as stated, fails on the code: when the actor is the target and both the
  stored and the requested role are \<^verbatim>\<open>user\<close>, the request does not succeed as unchanged;
  the self-demotion check, which comes first, rejects it.
\<close>

theorem updateUserRole_same_role_rejected_for_self:
  "List.find (\<lambda>u. userId u = ''u1'') (rows sampleRepo) = Some sampleUser
   \<and> UserRole_value (role sampleUser) = ''user''
   \<and> updateUserRole ''n'' (Some sampleActor) ''u1'' (Some ''user'') sampleRepo
       = (Inl DataInvalid, sampleRepo)"
  by (simp add: updateUserRole_def parseUserRole_def sampleActor_def sampleRepo_def sampleUser_def)

text \<open>
  Claim C9, amended: for every existing target user whose current role equals the
  requested role, unless the actor is the target and the requested role is \<^verbatim>\<open>user\<close>, the
  request succeeds with the message that the role is unchanged, and the repository
  afterwards is the one before with the lookup of the target added to its log: no
  \<^verbatim>\<open>save\<close> is performed and no row is touched.
\<close>

theorem updateUserRole_same_role_unchanged:
  assumes found: "List.find (\<lambda>u. userId u = targetUserId) (rows repo) = Some user"
    and same: "UserRole_value (role user) = r"
    and other: "\<not> (au_userId actor = targetUserId \<and> r = UserRole_value USER)"
  shows "updateUserRole newId (Some actor) targetUserId (Some r) repo
           = (Inr \<lparr>res_status = 200, res_message = RoleUnchanged,
                   res_userId = userId user, res_role = role user\<rparr>,
              repo\<lparr>oplog := oplog repo @ [FindOneByUserId targetUserId]\<rparr>)"
proof -
  have valid: "parseUserRole r = Some (role user)"
    using same parseUserRole_value [of "role user"] by simp
  have "r \<noteq> []"
    using same UserRole_value_nonempty [of "role user"] by simp
  with valid found same other show ?thesis
    by (auto simp: updateUserRole_def findOneByUserId_def)
qed

text \<open>
  Witness of C9, amended: an administrator asks for the role \<^verbatim>\<open>user\<close> on the user \<^verbatim>\<open>u1\<close>,
  who has it already.
\<close>

theorem updateUserRole_same_role_unchanged_witness:
  "List.find (\<lambda>u. userId u = ''u1'') (rows sampleRepo) = Some sampleUser
   \<and> UserRole_value (role sampleUser) = ''user''
   \<and> updateUserRole ''n'' (Some adminActor) ''u1'' (Some ''user'') sampleRepo
       = (Inr \<lparr>res_status = 200, res_message = RoleUnchanged, res_userId = ''u1'', res_role = USER\<rparr>,
          \<lparr>rows = [sampleUser], oplog = [FindOneByUserId ''u1'']\<rparr>)"
  using updateUserRole_same_role_unchanged
    [of "''u1''" sampleRepo sampleUser "''user''" adminActor "''n''"]
  by (simp add: sampleRepo_def sampleUser_def adminActor_def)


section \<open>Properties of the OAuth linker\<close>

subsection \<open>What is stored is found again\<close>

lemma find_replace_found:
  assumes "List.find (\<lambda>u. email u = m) rs = Some old" and "userId old = userId e" and "email e = m"
  shows "List.find (\<lambda>u. email u = m) (map (\<lambda>u. if userId u = userId e then e else u) rs) = Some e"
  using assms by (induction rs) (auto split: if_splits)

lemma find_replace_new:
  assumes "List.find (\<lambda>u. email u = m) rs = None"
    and "List.find (\<lambda>u. userId u = userId e) rs \<noteq> None" and "email e = m"
  shows "List.find (\<lambda>u. email u = m) (map (\<lambda>u. if userId u = userId e then e else u) rs) = Some e"
  using assms by (induction rs) (auto split: if_splits)

lemma find_snoc_new:
  "List.find P rs = None \<Longrightarrow> P e \<Longrightarrow> List.find P (rs @ [e]) = Some e"
  by (induction rs) (auto split: if_splits)

lemma find_by_id_of_email:
  assumes "List.find (\<lambda>u. email u = m) rs = Some old"
  shows "List.find (\<lambda>u. userId u = userId old) rs \<noteq> None"
proof -
  from assms have "old \<in> set rs"
    by (auto simp: find_Some_iff)
  then show ?thesis
    by (auto simp: find_None_iff)
qed

lemma find_email: "List.find (\<lambda>u. email u = m) rs = Some old \<Longrightarrow> email old = m"
  by (auto simp: find_Some_iff)

lemma save_existing:
  assumes "List.find (\<lambda>u. email u = m) (rows repo) = Some old"
    and "userId e = userId old" and "userId e \<noteq> []" and "email e = m"
  shows "fst (save newId e repo) = e"
    and "List.find (\<lambda>u. email u = m) (rows (snd (save newId e repo))) = Some e"
proof -
  show "fst (save newId e repo) = e"
    using assms(3) by (simp add: save_def Let_def)
  have "List.find (\<lambda>u. userId u = userId e) (rows repo) \<noteq> None"
    using find_by_id_of_email [OF assms(1)] assms(2) by simp
  then have "rows (snd (save newId e repo)) = map (\<lambda>u. if userId u = userId e then e else u) (rows repo)"
    using assms(3) by (simp add: save_def Let_def)
  then show "List.find (\<lambda>u. email u = m) (rows (snd (save newId e repo))) = Some e"
    using find_replace_found [OF assms(1) assms(2) [symmetric] assms(4)] by simp
qed

lemma save_new:
  assumes "List.find (\<lambda>u. email u = m) (rows repo) = None"
    and "userId e = []" and "email e = m"
  shows "fst (save newId e repo) = e\<lparr>userId := newId\<rparr>"
    and "List.find (\<lambda>u. email u = m) (rows (snd (save newId e repo))) = Some (e\<lparr>userId := newId\<rparr>)"
proof -
  let ?s = "e\<lparr>userId := newId\<rparr>"
  show "fst (save newId e repo) = ?s"
    using assms(2) by (simp add: save_def Let_def)
  have m: "email ?s = m" using assms(3) by simp
  show "List.find (\<lambda>u. email u = m) (rows (snd (save newId e repo))) = Some ?s"
  proof (cases "List.find (\<lambda>u. userId u = userId ?s) (rows repo) = None")
    case True
    then have "rows (snd (save newId e repo)) = rows repo @ [?s]"
      using assms(2) by (simp add: save_def Let_def)
    then show ?thesis using find_snoc_new [OF assms(1), of ?s] m by simp
  next
    case False
    then have "rows (snd (save newId e repo)) = map (\<lambda>u. if userId u = userId ?s then ?s else u) (rows repo)"
      using assms(2) by (simp add: save_def Let_def)
    then show ?thesis using find_replace_new [OF assms(1) False m] by simp
  qed
qed

subsection \<open>The three changes to a user\<close>

lemma fillAvatar_fields [simp]:
  "userId (fillAvatar av u) = userId u" "email (fillAvatar av u) = email u"
  "oauthProviders (fillAvatar av u) = oauthProviders u"
  "isEmailVerified (fillAvatar av u) = isEmailVerified u"
  "providerLinks (fillAvatar av u) = providerLinks u"
  by (simp_all add: fillAvatar_def providerLinks_def)

lemma fillAvatar_settled: "\<not> (truthy av \<and> \<not> truthy (avatar (fillAvatar av u)))"
  by (simp add: fillAvatar_def)

lemma fillAvatar_idle: "\<not> (truthy av \<and> \<not> truthy (avatar u)) \<Longrightarrow> fillAvatar av u = u"
  by (auto simp: fillAvatar_def)

lemma relinkExisting_fields [simp]:
  "userId (relinkExisting now gid at rt av u) = userId u"
  "email (relinkExisting now gid at rt av u) = email u"
  "isEmailVerified (relinkExisting now gid at rt av u) = isEmailVerified u"
  "providerLinks (relinkExisting now gid at rt av u)
     = update_first isGoogle (refreshLink now gid at rt) (providerLinks u)"
  by (simp_all add: relinkExisting_def providerLinks_def split: option.splits)

lemma appendLink_fields [simp]:
  "userId (appendLink now gid at rt av u) = userId u"
  "email (appendLink now gid at rt av u) = email u"
  "isEmailVerified (appendLink now gid at rt av u) = Some True"
  "providerLinks (appendLink now gid at rt av u) = providerLinks u @ [googleLink now gid at rt]"
  by (simp_all add: appendLink_def providerLinks_def)

lemma newGoogleUser_fields [simp]:
  "userId (newGoogleUser now gid at rt av dn m) = []"
  "email (newGoogleUser now gid at rt av dn m) = m"
  "isEmailVerified (newGoogleUser now gid at rt av dn m) = Some True"
  "providerLinks (newGoogleUser now gid at rt av dn m) = [googleLink now gid at rt]"
  "avatar (newGoogleUser now gid at rt av dn m) = av"
  by (simp_all add: newGoogleUser_def providerLinks_def)

subsection \<open>The three branches of the linker\<close>

lemma linkOrCreate_relink:
  assumes "List.find (\<lambda>u. email u = m) (rows repo) = Some user"
    and "List.find isGoogle (providerLinks user) = Some l" and "userId user \<noteq> []"
  shows "fst (linkOrCreate now newId gid at rt av dn m repo) = relinkExisting now gid at rt av user"
    and "List.find (\<lambda>u. email u = m) (rows (snd (linkOrCreate now newId gid at rt av dn m repo)))
           = Some (relinkExisting now gid at rt av user)"
proof -
  let ?u = "relinkExisting now gid at rt av user"
  let ?repo1 = "repo\<lparr>oplog := oplog repo @ [FindOneByEmail m]\<rparr>"
  have eq: "linkOrCreate now newId gid at rt av dn m repo = (?u, snd (save newId ?u ?repo1))"
    using assms(1,2) by (simp add: linkOrCreate_def findOneByEmail_def Let_def split: prod.splits)
  show "fst (linkOrCreate now newId gid at rt av dn m repo) = ?u"
    using eq by simp
  have "List.find (\<lambda>u. email u = m) (rows ?repo1) = Some user"
    using assms(1) by simp
  from save_existing(2) [OF this, of ?u newId] assms(3) find_email [OF assms(1)]
  show "List.find (\<lambda>u. email u = m) (rows (snd (linkOrCreate now newId gid at rt av dn m repo))) = Some ?u"
    using eq by simp
qed

lemma linkOrCreate_append:
  assumes "List.find (\<lambda>u. email u = m) (rows repo) = Some user"
    and "List.find isGoogle (providerLinks user) = None" and "userId user \<noteq> []"
  shows "fst (linkOrCreate now newId gid at rt av dn m repo) = appendLink now gid at rt av user"
    and "List.find (\<lambda>u. email u = m) (rows (snd (linkOrCreate now newId gid at rt av dn m repo)))
           = Some (appendLink now gid at rt av user)"
proof -
  let ?u = "appendLink now gid at rt av user"
  let ?repo1 = "repo\<lparr>oplog := oplog repo @ [FindOneByEmail m]\<rparr>"
  have eq: "linkOrCreate now newId gid at rt av dn m repo = (?u, snd (save newId ?u ?repo1))"
    using assms(1,2) by (simp add: linkOrCreate_def findOneByEmail_def Let_def split: prod.splits)
  show "fst (linkOrCreate now newId gid at rt av dn m repo) = ?u"
    using eq by simp
  have "List.find (\<lambda>u. email u = m) (rows ?repo1) = Some user"
    using assms(1) by simp
  from save_existing(2) [OF this, of ?u newId] assms(3) find_email [OF assms(1)]
  show "List.find (\<lambda>u. email u = m) (rows (snd (linkOrCreate now newId gid at rt av dn m repo))) = Some ?u"
    using eq by simp
qed

lemma linkOrCreate_create:
  assumes "List.find (\<lambda>u. email u = m) (rows repo) = None"
  shows "fst (linkOrCreate now newId gid at rt av dn m repo)
           = (newGoogleUser now gid at rt av dn m)\<lparr>userId := newId\<rparr>"
    and "List.find (\<lambda>u. email u = m) (rows (snd (linkOrCreate now newId gid at rt av dn m repo)))
           = Some ((newGoogleUser now gid at rt av dn m)\<lparr>userId := newId\<rparr>)"
proof -
  let ?e = "newGoogleUser now gid at rt av dn m"
  let ?repo1 = "repo\<lparr>oplog := oplog repo @ [FindOneByEmail m]\<rparr>"
  have eq: "linkOrCreate now newId gid at rt av dn m repo = save newId ?e ?repo1"
    using assms by (simp add: linkOrCreate_def findOneByEmail_def)
  have none: "List.find (\<lambda>u. email u = m) (rows ?repo1) = None"
    using assms by simp
  show "fst (linkOrCreate now newId gid at rt av dn m repo) = ?e\<lparr>userId := newId\<rparr>"
    using eq save_new(1) [OF none, of ?e newId] by simp
  show "List.find (\<lambda>u. email u = m) (rows (snd (linkOrCreate now newId gid at rt av dn m repo)))
           = Some (?e\<lparr>userId := newId\<rparr>)"
    using eq save_new(2) [OF none, of ?e newId] by simp
qed

subsection \<open>Lists of links\<close>

lemma provider_refreshLink [simp]: "provider (refreshLink now gid at rt p) = provider p"
  by (simp add: refreshLink_def)

lemma isGoogle_refreshLink [simp]: "isGoogle (refreshLink now gid at rt p) = isGoogle p"
  by (simp add: isGoogle_def)

lemma isGoogle_googleLink [simp]: "isGoogle (googleLink now gid at rt)"
  by (simp add: isGoogle_def googleLink_def)

lemma providers_update_first:
  "(\<And>x. provider (f x) = provider x) \<Longrightarrow> map provider (update_first P f xs) = map provider xs"
  by (induction xs) simp_all

lemma filter_none: "List.find P xs = None \<Longrightarrow> filter P xs = []"
  by (induction xs) (auto split: if_splits)

lemma filter_google_distinct:
  assumes "distinct (map provider xs)" and "List.find isGoogle xs = Some l"
  shows "filter isGoogle xs = [l]"
  using assms
proof (induction xs)
  case Nil
  then show ?case by simp
next
  case (Cons x xs)
  show ?case
  proof (cases "isGoogle x")
    case True
    with Cons.prems have "l = x" and fresh: "provider x \<notin> provider ` set xs"
      by simp_all
    from fresh True have "\<forall>y \<in> set xs. \<not> isGoogle y"
      unfolding isGoogle_def by (metis imageI)
    then have "filter isGoogle xs = []"
      by (simp add: filter_empty_conv)
    with True \<open>l = x\<close> show ?thesis by simp
  next
    case False
    with Cons show ?thesis by simp
  qed
qed

lemma update_first_single:
  assumes "filter P xs = [l]" and "P (f l)"
  shows "filter P (update_first P f xs) = [f l]"
    and "filter (\<lambda>x. \<not> P x) (update_first P f xs) = filter (\<lambda>x. \<not> P x) xs"
    and "update_first P f xs = map (\<lambda>x. if P x then f x else x) xs"
  using assms
proof (induction xs)
  case Nil
  { case 1 then show ?case by simp }
  { case 2 then show ?case by simp }
  { case 3 then show ?case by simp }
next
  case (Cons x xs)
  { case 1
    show ?case
    proof (cases "P x")
      case True
      with 1 have "l = x" "filter P xs = []" by simp_all
      with True 1 show ?thesis by simp
    next
      case False
      with 1 Cons(1) show ?thesis by simp
    qed }
  { case 2
    show ?case
    proof (cases "P x")
      case True
      with 2 have "l = x" by simp
      with True 2 show ?thesis by simp
    next
      case False
      with 2 Cons(2) show ?thesis by simp
    qed }
  { case 3
    show ?case
    proof (cases "P x")
      case True
      with 3 have "l = x" "filter P xs = []" by simp_all
      then have "\<forall>y \<in> set xs. \<not> P y" by (simp add: filter_empty_conv)
      then have "map (\<lambda>x. if P x then f x else x) xs = xs"
        by (simp add: map_idI)
      with True show ?thesis by simp
    next
      case False
      with 3 Cons(3) show ?thesis by simp
    qed }
qed

lemma find_of_filter: "filter P xs = [l] \<Longrightarrow> List.find P xs = Some l"
  by (induction xs) (auto split: if_splits)

lemma update_first_member:
  "List.find P xs = Some l \<Longrightarrow> f l \<in> set (update_first P f xs)"
  by (induction xs) (auto split: if_splits)

lemma refreshLink_fields [simp]:
  "providerId (refreshLink now gid at rt p) = gid"
  "accessToken (refreshLink now gid at rt p) = at"
  "refreshToken (refreshLink now gid at rt p) = rt"
  "tokenExpiresAt (refreshLink now gid at rt p) = now + 3600000"
  by (simp_all add: refreshLink_def)

lemma refreshLink_same_id:
  "providerId p = gid \<Longrightarrow> refreshLink now gid at rt p = renewTokens now at rt p"
  by (simp add: refreshLink_def renewTokens_def)

lemma refreshLink_other_id:
  "providerId p \<noteq> gid \<Longrightarrow>
   refreshLink now gid at rt p
     = p\<lparr>providerId := gid, accessToken := at, refreshToken := rt, tokenExpiresAt := now + 3600000\<rparr>"
  by (simp add: refreshLink_def)

lemma relinkExisting_settled:
  "\<not> (truthy av \<and> \<not> truthy (avatar (relinkExisting now gid at rt av u)))"
  by (simp add: relinkExisting_def fillAvatar_def)

lemma appendLink_settled:
  "\<not> (truthy av \<and> \<not> truthy (avatar (appendLink now gid at rt av u)))"
  by (simp add: appendLink_def fillAvatar_def)

text \<open>
  What one call establishes: the returned user is the stored one, has an identifier,
  exactly one Google link, of the incoming subject, at most one link per provider, and
  an avatar whenever the profile offers one.
\<close>

lemma linkOrCreate_establishes:
  assumes inv: "\<forall>user. List.find (\<lambda>u. email u = m) (rows repo) = Some user \<longrightarrow>
                  oneLinkPerProvider user \<and> userId user \<noteq> []"
    and fresh: "newId \<noteq> []"
    and call: "linkOrCreate now newId gid at rt av dn m repo = (u1, repo1)"
  shows "List.find (\<lambda>u. email u = m) (rows repo1) = Some u1
         \<and> userId u1 \<noteq> []
         \<and> oneLinkPerProvider u1
         \<and> (\<exists>g. filter isGoogle (providerLinks u1) = [g] \<and> providerId g = gid)
         \<and> \<not> (truthy av \<and> \<not> truthy (avatar u1))"
proof (cases "List.find (\<lambda>u. email u = m) (rows repo)")
  case None
  from linkOrCreate_create [OF None, of now newId gid at rt av dn] call
  have u1: "u1 = (newGoogleUser now gid at rt av dn m)\<lparr>userId := newId\<rparr>"
    and stored: "List.find (\<lambda>u. email u = m) (rows repo1) = Some u1"
    by simp_all
  have links: "providerLinks u1 = [googleLink now gid at rt]"
    unfolding u1 by (simp add: providerLinks_def newGoogleUser_def)
  have "avatar u1 = av"
    unfolding u1 by (simp add: newGoogleUser_def)
  with stored fresh links show ?thesis
    by (simp add: u1 oneLinkPerProvider_def googleLink_def isGoogle_def)
next
  case (Some user)
  with inv have one: "distinct (map provider (providerLinks user))" and id: "userId user \<noteq> []"
    by (simp_all add: oneLinkPerProvider_def)
  show ?thesis
  proof (cases "List.find isGoogle (providerLinks user)")
    case None
    from linkOrCreate_append [OF Some None id, of now newId gid at rt av dn] call
    have u1: "u1 = appendLink now gid at rt av user"
      and stored: "List.find (\<lambda>u. email u = m) (rows repo1) = Some u1"
      by simp_all
    from None have nogoogle: "\<forall>p \<in> set (providerLinks user). \<not> isGoogle p"
      by (simp add: find_None_iff)
    then have "''google'' \<notin> provider ` set (providerLinks user)"
      by (auto simp: isGoogle_def)
    with one have "oneLinkPerProvider u1"
      by (simp add: u1 oneLinkPerProvider_def googleLink_def)
    moreover have "filter isGoogle (providerLinks u1) = [googleLink now gid at rt]"
      using filter_none [OF None] by (simp add: u1)
    moreover have "providerId (googleLink now gid at rt) = gid"
      by (simp add: googleLink_def)
    ultimately show ?thesis
      using stored id appendLink_settled [of av now gid at rt user] by (simp add: u1)
  next
    case (Some l)
    from linkOrCreate_relink [OF \<open>List.find (\<lambda>u. email u = m) (rows repo) = Some user\<close> Some id,
        of now newId gid at rt av dn] call
    have u1: "u1 = relinkExisting now gid at rt av user"
      and stored: "List.find (\<lambda>u. email u = m) (rows repo1) = Some u1"
      by simp_all
    have "filter isGoogle (providerLinks user) = [l]"
      using one Some by (rule filter_google_distinct)
    moreover from Some have "isGoogle l"
      by (auto simp: find_Some_iff)
    ultimately have "filter isGoogle (providerLinks u1) = [refreshLink now gid at rt l]"
      by (simp add: u1 update_first_single(1))
    moreover have "oneLinkPerProvider u1"
      using one by (simp add: u1 oneLinkPerProvider_def providers_update_first)
    ultimately show ?thesis
      using stored id relinkExisting_settled [of av now gid at rt user] by (simp add: u1)
  qed
qed


subsection \<open>The claims about the linker\<close>

text \<open>
  Claim C4: let the user stored under the email, if there is one, have at most one link
  per provider (and, as every stored row, an identifier). Two calls for the same
  provider, subject and email, whatever tokens and profile the second one brings, leave
  the user with exactly one Google link; the links after the second call are those
  after the first with the token material of the Google link renewed and nothing else
  changed; the rest of the user is as after the first call, up to the avatar the second
  call may fill in when the user has none, and entirely so when the second profile
  offers the same photo; and after each call the user, as returned and as stored, has
  at most one link per provider.
\<close>

theorem linkOrCreate_idempotent:
  assumes inv: "\<forall>user. List.find (\<lambda>u. email u = m) (rows repo) = Some user \<longrightarrow>
                  oneLinkPerProvider user \<and> userId user \<noteq> []"
    and fresh: "newId \<noteq> []"
    and first: "linkOrCreate now newId gid at rt av dn m repo = (u1, repo1)"
    and second: "linkOrCreate now' newId' gid at' rt' av' dn' m repo1 = (u2, repo2)"
  shows "oneLinkPerProvider u1 \<and> oneLinkPerProvider u2
         \<and> length (filter isGoogle (providerLinks u1)) = 1
         \<and> length (filter isGoogle (providerLinks u2)) = 1
         \<and> providerLinks u2
             = map (\<lambda>p. if isGoogle p then renewTokens now' at' rt' p else p) (providerLinks u1)
         \<and> u2 = fillAvatar av' (u1\<lparr>oauthProviders := Some (providerLinks u2)\<rparr>)
         \<and> (av' = av \<longrightarrow> u2 = u1\<lparr>oauthProviders := Some (providerLinks u2)\<rparr>)
         \<and> List.find (\<lambda>u. email u = m) (rows repo1) = Some u1
         \<and> List.find (\<lambda>u. email u = m) (rows repo2) = Some u2"
proof -
  from linkOrCreate_establishes [OF inv fresh first]
  obtain g where stored1: "List.find (\<lambda>u. email u = m) (rows repo1) = Some u1"
    and id1: "userId u1 \<noteq> []"
    and one1: "oneLinkPerProvider u1"
    and g: "filter isGoogle (providerLinks u1) = [g]" "providerId g = gid"
    and settled: "\<not> (truthy av \<and> \<not> truthy (avatar u1))"
    by blast
  have found: "List.find isGoogle (providerLinks u1) = Some g"
    using g(1) by (rule find_of_filter)
  from linkOrCreate_relink [OF stored1 found id1, of now' newId' gid at' rt' av' dn'] second
  have u2: "u2 = relinkExisting now' gid at' rt' av' u1"
    and stored2: "List.find (\<lambda>u. email u = m) (rows repo2) = Some u2"
    by simp_all
  have "isGoogle g"
    using found by (auto simp: find_Some_iff)
  then have single2: "filter isGoogle (providerLinks u2) = [refreshLink now' gid at' rt' g]"
    using g(1) by (simp add: u2 update_first_single(1))
  have one2: "oneLinkPerProvider u2"
    using one1 by (simp add: u2 oneLinkPerProvider_def providers_update_first)
  have only_g: "\<forall>p \<in> set (providerLinks u1). isGoogle p \<longrightarrow> p = g"
  proof (intro ballI impI)
    fix p assume "p \<in> set (providerLinks u1)" "isGoogle p"
    then have "p \<in> set (filter isGoogle (providerLinks u1))" by simp
    with g(1) show "p = g" by simp
  qed
  have links_some: "oauthProviders u1 = Some (providerLinks u1)"
    using found by (cases "oauthProviders u1") (simp_all add: providerLinks_def)
  have "providerLinks u2
          = map (\<lambda>p. if isGoogle p then refreshLink now' gid at' rt' p else p) (providerLinks u1)"
    using g(1) \<open>isGoogle g\<close> by (simp add: u2 update_first_single(3))
  also have "\<dots> = map (\<lambda>p. if isGoogle p then renewTokens now' at' rt' p else p) (providerLinks u1)"
    using only_g g(2) by (auto simp: refreshLink_same_id)
  finally have renewed:
    "providerLinks u2
       = map (\<lambda>p. if isGoogle p then renewTokens now' at' rt' p else p) (providerLinks u1)" .
  have whole: "u2 = fillAvatar av' (u1\<lparr>oauthProviders := Some (providerLinks u2)\<rparr>)"
    unfolding u2 relinkExisting_fields unfolding relinkExisting_def
    by (subst links_some) simp
  have "av' = av \<longrightarrow> u2 = u1\<lparr>oauthProviders := Some (providerLinks u2)\<rparr>"
  proof
    assume "av' = av"
    with settled have "fillAvatar av' (u1\<lparr>oauthProviders := Some (providerLinks u2)\<rparr>)
                         = u1\<lparr>oauthProviders := Some (providerLinks u2)\<rparr>"
      by (intro fillAvatar_idle) simp
    with whole show "u2 = u1\<lparr>oauthProviders := Some (providerLinks u2)\<rparr>" by simp
  qed
  with one1 one2 g(1) single2 renewed whole stored1 stored2 show ?thesis by simp
qed

text \<open>
  Witness of C4: the sample user, who has no link, logs in twice with the subject
  \<^verbatim>\<open>g123\<close>; the second login renews the tokens of the one link.
\<close>

theorem linkOrCreate_idempotent_witness:
  "oneLinkPerProvider sampleUser \<and> userId sampleUser \<noteq> []
   \<and> providerLinks (fst (linkOrCreate 1000 ''n1'' ''g123'' ''t1'' None None ''Alice'' ''a@x.com'' sampleRepo))
       = [\<lparr>provider = ''google'', providerId = ''g123'', accessToken = ''t1'',
           refreshToken = None, tokenExpiresAt = 3601000\<rparr>]
   \<and> fst (linkOrCreate 2000 ''n2'' ''g123'' ''t2'' (Some ''r2'') None ''Alice'' ''a@x.com''
            (snd (linkOrCreate 1000 ''n1'' ''g123'' ''t1'' None None ''Alice'' ''a@x.com'' sampleRepo)))
       = sampleUser\<lparr>isEmailVerified := Some True, oauthProviders :=
           Some [\<lparr>provider = ''google'', providerId = ''g123'', accessToken = ''t2'',
                  refreshToken = Some ''r2'', tokenExpiresAt = 3602000\<rparr>]\<rparr>"
proof -
  let ?c1 = "linkOrCreate 1000 ''n1'' ''g123'' ''t1'' None None ''Alice'' ''a@x.com'' sampleRepo"
  let ?c2 = "linkOrCreate 2000 ''n2'' ''g123'' ''t2'' (Some ''r2'') None ''Alice'' ''a@x.com'' (snd ?c1)"
  have inv: "\<forall>user. List.find (\<lambda>u. email u = ''a@x.com'') (rows sampleRepo) = Some user \<longrightarrow>
               oneLinkPerProvider user \<and> userId user \<noteq> []"
    by (simp add: sampleRepo_def sampleUser_def oneLinkPerProvider_def providerLinks_def)
  have fresh: "''n1'' \<noteq> []" by simp
  have first: "?c1 = (fst ?c1, snd ?c1)" by simp
  have second: "?c2 = (fst ?c2, snd ?c2)" by simp
  have u1: "fst ?c1 = sampleUser\<lparr>isEmailVerified := Some True, oauthProviders :=
           Some [\<lparr>provider = ''google'', providerId = ''g123'', accessToken = ''t1'',
                  refreshToken = None, tokenExpiresAt = 3601000\<rparr>]\<rparr>"
    by (simp add: linkOrCreate_def findOneByEmail_def sampleRepo_def sampleUser_def providerLinks_def
        appendLink_def fillAvatar_def truthy_def googleLink_def save_def Let_def)
  note inst = linkOrCreate_idempotent [OF inv fresh first second]
  from inst have "providerLinks (fst ?c2)
             = map (\<lambda>p. if isGoogle p then renewTokens 2000 ''t2'' (Some ''r2'') p else p) (providerLinks (fst ?c1))"
    and "fst ?c2 = (fst ?c1)\<lparr>oauthProviders := Some (providerLinks (fst ?c2))\<rparr>"
    by blast+
  then have "fst ?c2 = sampleUser\<lparr>isEmailVerified := Some True, oauthProviders :=
           Some [\<lparr>provider = ''google'', providerId = ''g123'', accessToken = ''t2'',
                  refreshToken = Some ''r2'', tokenExpiresAt = 3602000\<rparr>]\<rparr>"
    by (simp add: u1 providerLinks_def isGoogle_def renewTokens_def)
  with inv u1 show ?thesis
    by (simp add: sampleRepo_def sampleUser_def providerLinks_def)
qed

text \<open>
  Claim C5: let a stored user, with at most one link per provider, have a Google link
  whose subject differs from the incoming one. After the call the user's Google links
  are that one link with the incoming subject, access token, refresh token and the new
  expiry; the links of other providers are as before; and this user is the one stored.
\<close>

theorem linkOrCreate_overwrites_providerId:
  assumes found: "List.find (\<lambda>u. email u = m) (rows repo) = Some user"
    and id: "userId user \<noteq> []"
    and one: "oneLinkPerProvider user"
    and link: "List.find isGoogle (providerLinks user) = Some l"
    and differs: "providerId l \<noteq> gid"
  shows "filter isGoogle (providerLinks (fst (linkOrCreate now newId gid at rt av dn m repo)))
           = [l\<lparr>providerId := gid, accessToken := at, refreshToken := rt,
                tokenExpiresAt := now + 3600000\<rparr>]
         \<and> filter (\<lambda>p. \<not> isGoogle p) (providerLinks (fst (linkOrCreate now newId gid at rt av dn m repo)))
           = filter (\<lambda>p. \<not> isGoogle p) (providerLinks user)
         \<and> List.find (\<lambda>u. email u = m) (rows (snd (linkOrCreate now newId gid at rt av dn m repo)))
           = Some (fst (linkOrCreate now newId gid at rt av dn m repo))"
proof -
  have single: "filter isGoogle (providerLinks user) = [l]"
    using one link unfolding oneLinkPerProvider_def by (rule filter_google_distinct)
  have google: "isGoogle l"
    using link by (auto simp: find_Some_iff)
  note branch = linkOrCreate_relink [OF found link id, of now newId gid at rt av dn]
  have "filter isGoogle (update_first isGoogle (refreshLink now gid at rt) (providerLinks user))
          = [refreshLink now gid at rt l]"
    using single google by (simp add: update_first_single(1))
  moreover have "filter (\<lambda>p. \<not> isGoogle p)
                   (update_first isGoogle (refreshLink now gid at rt) (providerLinks user))
                 = filter (\<lambda>p. \<not> isGoogle p) (providerLinks user)"
    using single google by (simp add: update_first_single(2))
  ultimately show ?thesis
    using branch differs by (simp add: refreshLink_other_id)
qed

text \<open>
  Witness of C5: the user linked to the subject \<^verbatim>\<open>g123\<close> logs in with the subject
  \<^verbatim>\<open>g456\<close>.
\<close>

theorem linkOrCreate_overwrites_providerId_witness:
  "List.find (\<lambda>u. email u = ''a@x.com'') (rows linkedRepo) = Some linkedUser
   \<and> oneLinkPerProvider linkedUser
   \<and> providerLinks linkedUser
       = [\<lparr>provider = ''google'', providerId = ''g123'', accessToken = ''t0'',
           refreshToken = None, tokenExpiresAt = 0\<rparr>]
   \<and> filter isGoogle (providerLinks
        (fst (linkOrCreate 1000 ''n'' ''g456'' ''t1'' (Some ''r1'') None ''Alice'' ''a@x.com'' linkedRepo)))
       = [\<lparr>provider = ''google'', providerId = ''g456'', accessToken = ''t1'',
           refreshToken = Some ''r1'', tokenExpiresAt = 3601000\<rparr>]"
proof -
  let ?l = "\<lparr>provider = ''google'', providerId = ''g123'', accessToken = ''t0'',
             refreshToken = None, tokenExpiresAt = 0\<rparr>"
  have found: "List.find (\<lambda>u. email u = ''a@x.com'') (rows linkedRepo) = Some linkedUser"
    by (simp add: linkedRepo_def linkedUser_def sampleUser_def)
  have id: "userId linkedUser \<noteq> []"
    by (simp add: linkedUser_def sampleUser_def)
  have links: "providerLinks linkedUser = [?l]"
    by (simp add: linkedUser_def providerLinks_def)
  have one: "oneLinkPerProvider linkedUser"
    by (simp add: oneLinkPerProvider_def links)
  have link: "List.find isGoogle (providerLinks linkedUser) = Some ?l"
    by (simp add: links isGoogle_def)
  have differs: "providerId ?l \<noteq> ''g456''"
    by simp
  from linkOrCreate_overwrites_providerId [OF found id one link differs,
      of 1000 "''n''" "''t1''" "Some ''r1''" None "''Alice''"]
  show ?thesis
    using found one links by simp
qed


text \<open>
  The property that a user with a Google link is verified is kept, for every row, by
  \<^verbatim>\<open>save\<close> of a user who has it, hence by the linker, and by the role guard.
\<close>

lemma verifiedIfLinked_userId [simp]:
  "verifiedIfLinked (u\<lparr>userId := i\<rparr>) = verifiedIfLinked u"
  by (simp add: verifiedIfLinked_def providerLinks_def)

lemma verifiedIfLinked_role [simp]:
  "verifiedIfLinked (u\<lparr>role := r\<rparr>) = verifiedIfLinked u"
  by (simp add: verifiedIfLinked_def providerLinks_def)

lemma save_rows:
  "set (rows (snd (save newId e repo))) \<subseteq> insert (fst (save newId e repo)) (set (rows repo))"
  by (auto simp: save_def Let_def)

lemma save_verifiedIfLinked:
  assumes "\<forall>u \<in> set (rows repo). verifiedIfLinked u" and "verifiedIfLinked e"
  shows "\<forall>u \<in> set (rows (snd (save newId e repo))). verifiedIfLinked u"
proof -
  have "verifiedIfLinked (fst (save newId e repo))"
    using assms(2) by (simp add: save_def Let_def)
  with assms(1) save_rows [of newId e repo] show ?thesis by auto
qed


lemma updateUserRole_keeps_verifiedIfLinked:
  assumes inv: "\<forall>u \<in> set (rows repo). verifiedIfLinked u"
  shows "\<forall>u \<in> set (rows (snd (updateUserRole newId actor target roleField repo))). verifiedIfLinked u"
proof (cases "List.find (\<lambda>u. userId u = target) (rows repo)")
  case None
  with inv show ?thesis
    by (auto simp: updateUserRole_def findOneByUserId_def split: option.splits)
next
  case (Some user)
  then have "user \<in> set (rows repo)"
    by (auto simp: find_Some_iff)
  with inv have "verifiedIfLinked user" by simp
  then have changed: "\<And>r. verifiedIfLinked (user\<lparr>role := r\<rparr>)" by simp
  let ?repo1 = "repo\<lparr>oplog := oplog repo @ [FindOneByUserId target]\<rparr>"
  have "\<And>r. \<forall>u \<in> set (rows (snd (save newId (user\<lparr>role := r\<rparr>) ?repo1))). verifiedIfLinked u"
    using save_verifiedIfLinked [of ?repo1, OF _ changed] inv by simp
  with inv Some show ?thesis
    by (auto simp: updateUserRole_def findOneByUserId_def Let_def case_prod_beta split: option.splits)
qed



text \<open>
  The hypothesis is needed in that branch only: a row with a Google link and the flag
  unset, which none of the functions above writes, keeps the flag unset through a
  login.
\<close>

lemma googleVerify_relogin_stays_unverified:
  "isEmailVerified linkedUser = Some False
   \<and> fst (googleVerify 1000 ''n'' ''t1'' None sampleProfile linkedRepo)
       = Inr \<lparr>gu_userId = ''u1'', gu_email = ''a@x.com'', gu_name = ''a'',
              gu_avatar = Some ''http://img/a.png'', gu_role = USER,
              gu_oauthProviders =
                [\<lparr>provider = ''google'', providerId = ''g123'', accessToken = ''t1'',
                  refreshToken = None, tokenExpiresAt = 3601000\<rparr>],
              gu_isEmailVerified = False\<rparr>
   \<and> map isEmailVerified (rows (snd (googleVerify 1000 ''n'' ''t1'' None sampleProfile linkedRepo)))
       = [Some False]"
  by (simp add: googleVerify_def sampleProfile_def linkedRepo_def linkedUser_def sampleUser_def
      first_value_def truthy_def or_else_def linkOrCreate_def findOneByEmail_def providerLinks_def
      isGoogle_def relinkExisting_def refreshLink_def fillAvatar_def save_def userData_def Let_def)

text \<open>
  Claim C7, as stated, fails on the code: the returned projection carries the links with
  their tokens, those of other providers included. A user with a link of another
  provider logs in through Google for the first time.
\<close>

theorem googleVerify_returns_other_providers_tokens:
  "fst (googleVerify 1000 ''n'' ''ya29.A'' (Some ''1//R'') sampleProfile githubRepo)
       = Inr \<lparr>gu_userId = ''u1'', gu_email = ''a@x.com'', gu_name = ''a'',
              gu_avatar = Some ''http://img/a.png'', gu_role = USER,
              gu_oauthProviders =
                [\<lparr>provider = ''github'', providerId = ''h77'', accessToken = ''gho_secret'',
                  refreshToken = Some ''ghr_secret'', tokenExpiresAt = 0\<rparr>,
                 \<lparr>provider = ''google'', providerId = ''g123'', accessToken = ''ya29.A'',
                  refreshToken = Some ''1//R'', tokenExpiresAt = 3601000\<rparr>],
              gu_isEmailVerified = True\<rparr>"
  by (simp add: googleVerify_def sampleProfile_def githubRepo_def githubUser_def sampleUser_def
      first_value_def truthy_def or_else_def linkOrCreate_def findOneByEmail_def providerLinks_def
      isGoogle_def appendLink_def googleLink_def fillAvatar_def save_def userData_def Let_def)

text \<open>
  Claim C7, amended: whenever the callback succeeds, the value it returns is the
  projection of the resolved user to the seven fields \<^verbatim>\<open>userId\<close>, \<^verbatim>\<open>email\<close>, \<^verbatim>\<open>name\<close>,
  \<^verbatim>\<open>avatar\<close>, \<^verbatim>\<open>role\<close>, \<^verbatim>\<open>oauthProviders\<close>, \<^verbatim>\<open>isEmailVerified\<close>; its \<^verbatim>\<open>oauthProviders\<close> is the
  user's whole list of links, token material included, and among them is a Google link
  with the access and refresh token just received.
\<close>

theorem googleVerify_returns_links_with_tokens:
  assumes "googleVerify now newId at rt profile repo = (Inr g, repo')"
  shows "\<exists>user. linkOrCreate now newId (profile_id profile) at rt (first_value (photos profile))
                  (displayName profile) (or_else (first_value (emails profile)) []) repo
                = (user, repo')
           \<and> g = \<lparr>gu_userId = userId user, gu_email = email user, gu_name = name user,
                  gu_avatar = avatar user, gu_role = role user,
                  gu_oauthProviders = providerLinks user,
                  gu_isEmailVerified = (isEmailVerified user = Some True)\<rparr>
           \<and> (\<exists>p \<in> set (gu_oauthProviders g). isGoogle p \<and> accessToken p = at \<and> refreshToken p = rt)"
proof -
  let ?m = "or_else (first_value (emails profile)) []"
  let ?call = "linkOrCreate now newId (profile_id profile) at rt (first_value (photos profile))
                 (displayName profile) ?m repo"
  from assms have res: "g = userData (fst ?call)" "repo' = snd ?call"
    by (auto simp: googleVerify_def Let_def split: if_splits prod.splits)
  have "\<exists>p \<in> set (providerLinks (fst ?call)). isGoogle p \<and> accessToken p = at \<and> refreshToken p = rt"
  proof (cases "List.find (\<lambda>u. email u = ?m) (rows repo)")
    case None
    then show ?thesis
      by (simp add: linkOrCreate_def findOneByEmail_def save_def Let_def providerLinks_def
          newGoogleUser_def googleLink_def isGoogle_def)
  next
    case (Some user)
    show ?thesis
    proof (cases "List.find isGoogle (providerLinks user)")
      case None
      with Some show ?thesis
        by (simp add: linkOrCreate_def findOneByEmail_def Let_def googleLink_def isGoogle_def
            split: prod.splits)
    next
      case (Some l)
      then have "isGoogle l" by (auto simp: find_Some_iff)
      with update_first_member [OF Some, of "refreshLink now (profile_id profile) at rt"]
        \<open>List.find (\<lambda>u. email u = ?m) (rows repo) = Some user\<close> Some
      show ?thesis
        by (auto simp: linkOrCreate_def findOneByEmail_def Let_def split: prod.splits
            intro!: bexI [of _ "refreshLink now (profile_id profile) at rt l"])
    qed
  qed
  moreover have "userData (fst ?call)
      = \<lparr>gu_userId = userId (fst ?call), gu_email = email (fst ?call), gu_name = name (fst ?call),
         gu_avatar = avatar (fst ?call), gu_role = role (fst ?call),
         gu_oauthProviders = providerLinks (fst ?call),
         gu_isEmailVerified = (isEmailVerified (fst ?call) = Some True)\<rparr>"
    by (auto simp: userData_def split: option.splits)
  ultimately show ?thesis
    using res by (intro exI [of _ "fst ?call"]) simp
qed

text \<open>Witness of C7, amended: the first Google login of the sample user.\<close>

theorem googleVerify_returns_links_with_tokens_witness:
  "fst (googleVerify 1000 ''n'' ''t1'' None sampleProfile sampleRepo)
     = Inr \<lparr>gu_userId = ''u1'', gu_email = ''a@x.com'', gu_name = ''a'',
            gu_avatar = Some ''http://img/a.png'', gu_role = USER,
            gu_oauthProviders =
              [\<lparr>provider = ''google'', providerId = ''g123'', accessToken = ''t1'',
                refreshToken = None, tokenExpiresAt = 3601000\<rparr>],
            gu_isEmailVerified = True\<rparr>
   \<and> (\<exists>p \<in> set (gu_oauthProviders
          \<lparr>gu_userId = ''u1'', gu_email = ''a@x.com'', gu_name = ''a'',
           gu_avatar = Some ''http://img/a.png'', gu_role = USER,
           gu_oauthProviders =
             [\<lparr>provider = ''google'', providerId = ''g123'', accessToken = ''t1'',
               refreshToken = None, tokenExpiresAt = 3601000\<rparr>],
           gu_isEmailVerified = True\<rparr>).
         isGoogle p \<and> accessToken p = ''t1'' \<and> refreshToken p = None)"
proof -
  let ?g = "\<lparr>gu_userId = ''u1'', gu_email = ''a@x.com'', gu_name = ''a'',
             gu_avatar = Some ''http://img/a.png'', gu_role = USER,
             gu_oauthProviders =
               [\<lparr>provider = ''google'', providerId = ''g123'', accessToken = ''t1'',
                 refreshToken = None, tokenExpiresAt = 3601000\<rparr>],
             gu_isEmailVerified = True\<rparr>"
  let ?call = "googleVerify 1000 ''n'' ''t1'' None sampleProfile sampleRepo"
  have result: "fst ?call = Inr ?g"
    by (simp add: googleVerify_def sampleProfile_def sampleRepo_def sampleUser_def
        first_value_def truthy_def or_else_def linkOrCreate_def findOneByEmail_def
        providerLinks_def isGoogle_def appendLink_def googleLink_def fillAvatar_def save_def
        userData_def Let_def)
  then have run: "?call = (Inr ?g, snd ?call)"
    by (metis prod.collapse)
  from googleVerify_returns_links_with_tokens [OF run]
  have "\<exists>p \<in> set (gu_oauthProviders ?g). isGoogle p \<and> accessToken p = ''t1'' \<and> refreshToken p = None"
    by blast
  with result show ?thesis by blast
qed

end
